theory Spec2Isabelle
  imports Complex_Main
begin

section \<open>Python strings\<close>

text \<open>
  A Python \<open>str\<close> is modelled as a \<^typ>\<open>string\<close>; a \<^typ>\<open>char\<close> is read as the code
  point of the same number, so the model covers the texts whose code points lie in
  U+0000..U+00FF. On that range \<open>str.isspace\<close> holds for the six ASCII whitespace
  characters, the four separators U+001C..U+001F, U+0085 and U+00A0, and \<open>str.lower\<close>
  maps A..Z and the Latin-1 capitals (U+00C0..U+00DE without U+00D7) 32 places up.
\<close>

definition isspace :: "char \<Rightarrow> bool" where
  "isspace c =
     (let n = (of_char c :: nat)
      in (9 \<le> n \<and> n \<le> 13) \<or> (28 \<le> n \<and> n \<le> 32) \<or> n = 133 \<or> n = 160)"

definition lower_char :: "char \<Rightarrow> char" where
  "lower_char c =
     (let n = (of_char c :: nat)
      in if (65 \<le> n \<and> n \<le> 90) \<or> (192 \<le> n \<and> n \<le> 222 \<and> n \<noteq> 215)
         then char_of (n + 32) else c)"

definition lower :: "string \<Rightarrow> string" where
  "lower s = map lower_char s"

text \<open>\<open>s.strip()\<close>: leading and trailing whitespace removed.\<close>

definition strip :: "string \<Rightarrow> string" where
  "strip s = rev (dropWhile isspace (rev (dropWhile isspace s)))"

text \<open>\<open>s.startswith(p)\<close>.\<close>

definition startswith :: "string \<Rightarrow> string \<Rightarrow> bool" where
  "startswith s p = (take (length p) s = p)"

text \<open>
  \<open>s.split()\<close> with no separator: skip a run of whitespace, stop at the end of the text,
  otherwise take the characters up to the next whitespace as one word and go on behind it.
\<close>

function split_ws :: "string \<Rightarrow> string list" where
  "split_ws s =
     (case dropWhile isspace s of
        [] \<Rightarrow> []
      | c # cs \<Rightarrow> (c # takeWhile (\<lambda>x. \<not> isspace x) cs)
                  # split_ws (dropWhile (\<lambda>x. \<not> isspace x) cs))"
  by pat_completeness auto
termination
proof (relation "measure length")
  show "wf (measure length)" by simp
next
  fix s :: string and c cs
  assume "dropWhile isspace s = c # cs"
  then have "length (c # cs) \<le> length s"
    by (metis length_dropWhile_le)
  moreover have "length (dropWhile (\<lambda>x. \<not> isspace x) cs) \<le> length cs"
    by (rule length_dropWhile_le)
  ultimately show "(dropWhile (\<lambda>x. \<not> isspace x) cs, s) \<in> measure length"
    by simp
qed

text \<open>
  \<open>s.rsplit(".", 1)\<close>: the text cut once, at its last dot; a text without a dot comes back
  whole, as the only element.
\<close>

definition rsplit_dot :: "string \<Rightarrow> string list" where
  "rsplit_dot s =
     (if CHR ''.'' \<in> set s
      then [rev (tl (dropWhile (\<lambda>x. x \<noteq> CHR ''.'') (rev s))),
            rev (takeWhile (\<lambda>x. x \<noteq> CHR ''.'') (rev s))]
      else [s])"

text \<open>\<open>str(n)\<close> of a number that is not negative, as the f-string of the upload notice prints it.\<close>

fun digits :: "nat \<Rightarrow> string" where
  "digits n = (if n < 10 then [char_of (48 + n)] else digits (n div 10) @ [char_of (48 + n mod 10)])"

section \<open>Word counter\<close>

text \<open>
  \<open>count_words\<close> (app.py, 116-117): the words of \<open>text.split()\<close> that are still non-empty
  after \<open>strip\<close>, counted.
\<close>

definition count_words :: "string \<Rightarrow> nat" where
  "count_words text = length [word \<leftarrow> split_ws text. strip word \<noteq> []]"

text \<open>
  The specification's count, written from its words: the text is cut at every maximal run
  of whitespace, which gives the tokens between the runs (the one before the first run and
  the one behind the last run may be empty), and the non-empty tokens are counted.
\<close>

function spec_tokens :: "string \<Rightarrow> string list" where
  "spec_tokens s =
     (let tok = takeWhile (\<lambda>x. \<not> isspace x) s;
          rest = dropWhile (\<lambda>x. \<not> isspace x) s
      in if rest = [] then [tok] else tok # spec_tokens (dropWhile isspace rest))"
  by pat_completeness auto
termination
proof (relation "measure length")
  show "wf (measure length)" by simp
next
  fix s tok rest :: string
  assume rest: "rest = dropWhile (\<lambda>x. \<not> isspace x) s" and ne: "rest \<noteq> []"
  from ne obtain c cs where cs: "rest = c # cs" by (cases rest) auto
  with rest have "isspace c"
    by (metis hd_dropWhile list.sel(1) ne)
  then have "length (dropWhile isspace rest) \<le> length cs"
    using cs by (simp add: length_dropWhile_le)
  moreover have "length rest \<le> length s"
    unfolding rest by (rule length_dropWhile_le)
  ultimately show "(dropWhile isspace rest, s) \<in> measure length"
    using cs by simp
qed

definition spec_count :: "string \<Rightarrow> nat" where
  "spec_count s = length [t \<leftarrow> spec_tokens s. t \<noteq> []]"


section \<open>The text of a file\<close>

text \<open>
  A file holds bytes, and reading it as text gives code points of the whole code space,
  so the text of a file is a list of numbers. \<open>str.isspace\<close> on all code points, and
  \<open>split\<close>, \<open>strip\<close> and \<open>count_words\<close> as above, on such a text; on a text below U+0100
  they agree with the ones above (\<open>count_words_cp_of_char\<close>).
\<close>

definition isspace_cp :: "nat \<Rightarrow> bool" where
  "isspace_cp n =
     ((9 \<le> n \<and> n \<le> 13) \<or> (28 \<le> n \<and> n \<le> 32) \<or> n = 133 \<or> n = 160 \<or> n = 5760
      \<or> (8192 \<le> n \<and> n \<le> 8202) \<or> n = 8232 \<or> n = 8233 \<or> n = 8239 \<or> n = 8287
      \<or> n = 12288)"

function split_cp :: "nat list \<Rightarrow> nat list list" where
  "split_cp s =
     (case dropWhile isspace_cp s of
        [] \<Rightarrow> []
      | c # cs \<Rightarrow> (c # takeWhile (\<lambda>x. \<not> isspace_cp x) cs)
                  # split_cp (dropWhile (\<lambda>x. \<not> isspace_cp x) cs))"
  by pat_completeness auto
termination
proof (relation "measure length")
  show "wf (measure length)" by simp
next
  fix s :: "nat list" and c cs
  assume "dropWhile isspace_cp s = c # cs"
  then have "length (c # cs) \<le> length s"
    by (metis length_dropWhile_le)
  moreover have "length (dropWhile (\<lambda>x. \<not> isspace_cp x) cs) \<le> length cs"
    by (rule length_dropWhile_le)
  ultimately show "(dropWhile (\<lambda>x. \<not> isspace_cp x) cs, s) \<in> measure length"
    by simp
qed

definition strip_cp :: "nat list \<Rightarrow> nat list" where
  "strip_cp s = rev (dropWhile isspace_cp (rev (dropWhile isspace_cp s)))"

definition count_words_cp :: "nat list \<Rightarrow> nat" where
  "count_words_cp text = length [word \<leftarrow> split_cp text. strip_cp word \<noteq> []]"

text \<open>
  Decoding with \<open>encoding="utf-8", errors="ignore"\<close>, on the numbers of the bytes. A byte
  below 0x80 is its own code point. A lead byte with all its continuation bytes gives the
  code point of the sequence; overlong forms, surrogates and values above U+10FFFF are no
  sequences. Where no sequence starts, the byte is dropped; where a sequence breaks off,
  its bytes so far are dropped and decoding goes on at the byte that broke it; a sequence
  cut short by the end of the file is dropped.
\<close>

definition continuation :: "nat \<Rightarrow> bool" where
  "continuation b = (128 \<le> b \<and> b < 192)"

fun utf8_ignore :: "nat list \<Rightarrow> nat list" where
  "utf8_ignore [] = []"
| "utf8_ignore (b # bs) =
     (if b < 128 then b # utf8_ignore bs
      else if b < 194 then utf8_ignore bs
      else if b < 224 then
        (case bs of
           [] \<Rightarrow> []
         | b2 # r \<Rightarrow>
             if continuation b2 then ((b - 192) * 64 + (b2 - 128)) # utf8_ignore r
             else utf8_ignore bs)
      else if b < 240 then
        (case bs of
           [] \<Rightarrow> []
         | b2 # r \<Rightarrow>
             if \<not> continuation b2 \<or> (b = 224 \<and> b2 < 160) \<or> (b = 237 \<and> 160 \<le> b2)
             then utf8_ignore bs
             else
               (case r of
                  [] \<Rightarrow> []
                | b3 # r' \<Rightarrow>
                    if continuation b3
                    then ((b - 224) * 4096 + (b2 - 128) * 64 + (b3 - 128)) # utf8_ignore r'
                    else utf8_ignore r))
      else if b < 245 then
        (case bs of
           [] \<Rightarrow> []
         | b2 # r \<Rightarrow>
             if \<not> continuation b2 \<or> (b = 240 \<and> b2 < 144) \<or> (b = 244 \<and> 144 \<le> b2)
             then utf8_ignore bs
             else
               (case r of
                  [] \<Rightarrow> []
                | b3 # r' \<Rightarrow>
                    if \<not> continuation b3 then utf8_ignore r
                    else
                      (case r' of
                         [] \<Rightarrow> []
                       | b4 # r'' \<Rightarrow>
                           if continuation b4
                           then ((b - 240) * 262144 + (b2 - 128) * 4096 + (b3 - 128) * 64
                                 + (b4 - 128)) # utf8_ignore r''
                           else utf8_ignore r')))
      else utf8_ignore bs)"

text \<open>Text mode with the default \<open>newline=None\<close>: \<open>\r\n\<close> and \<open>\r\<close> are read as \<open>\n\<close>.\<close>

fun universal_newlines :: "nat list \<Rightarrow> nat list" where
  "universal_newlines [] = []"
| "universal_newlines [c] = [if c = 13 then 10 else c]"
| "universal_newlines (c # d # ds) =
     (if c = 13 \<and> d = 10 then 10 # universal_newlines ds
      else if c = 13 then 10 # universal_newlines (d # ds)
      else c # universal_newlines (d # ds))"

text \<open>\<open>handle.read()\<close> of \<open>open(file_path, "r", encoding="utf-8", errors="ignore")\<close>.\<close>

definition read_text :: "char list \<Rightarrow> nat list" where
  "read_text bytes = universal_newlines (utf8_ignore (map of_char bytes))"

text \<open>
  The standard's encoding of a code point, to say what the decoder does with bytes that
  are well formed: the scalar values are the code points that are no surrogates.
\<close>

definition scalar :: "nat \<Rightarrow> bool" where
  "scalar c = (c < 55296 \<or> (57344 \<le> c \<and> c < 1114112))"

definition utf8 :: "nat \<Rightarrow> nat list" where
  "utf8 c =
     (if c < 128 then [c]
      else if c < 2048 then [192 + c div 64, 128 + c mod 64]
      else if c < 65536 then [224 + c div 4096, 128 + c div 64 mod 64, 128 + c mod 64]
      else [240 + c div 262144, 128 + c div 4096 mod 64, 128 + c div 64 mod 64,
            128 + c mod 64])"

section \<open>Data model\<close>

text \<open>
  One row of the table \<open>users\<close> (app.py, 38-47). A column that may hold \<open>NULL\<close> is an
  option; \<open>password\<close> is read with \<open>user["password"] or ""\<close>, so it is an option too.
\<close>

record user =
  uid :: nat
  username :: string
  password :: "string option"
  firstname :: "string option"
  lastname :: "string option"
  email :: "string option"
  address :: "string option"
  limerick_filename :: "string option"

text \<open>The table, with the counter behind \<open>AUTOINCREMENT\<close>.\<close>

record database =
  rows :: "user list"
  next_id :: nat

datatype db_error = IntegrityError

text \<open>
  What a path of the upload directory holds: a file that can be opened for reading, a file
  whose \<open>open\<close> for reading raises \<open>OSError\<close> (no read permission), both with their bytes,
  or a directory. A path that holds nothing does not exist. The model stops at paths
  whose \<open>stat\<close> fails for another reason than absence.
\<close>

datatype fsentry = Readable "char list" | Unreadable "char list" | Directory

datatype os_error = OSError

text \<open>
  The reads a handler makes, in order: each \<open>SELECT\<close> of a row by its username, and each
  look at a path of the upload directory (\<open>exists\<close>, \<open>open\<close>, \<open>send_from_directory\<close>).
  Writes are changes of the table and of the directory themselves.
\<close>

datatype access = RowRead string | FileRead string

text \<open>
  What a request can see and change: the table, the \<open>username\<close> entry of the signed
  session, the flashed notices (message, category), the upload directory by path, the
  paths that can be opened for writing (a name that is too long or a directory without
  write permission cannot), and the reads made so far.
\<close>

record state =
  db :: database
  session :: "string option"
  flashes :: "(string \<times> string) list"
  fs :: "string \<rightharpoonup> fsentry"
  writable :: "string \<Rightarrow> bool"
  reads :: "access list"

datatype http_method = GET | POST

record upload =
  filename :: string
  content :: "char list"

record request =
  req_method :: http_method
  form :: "string \<rightharpoonup> string"
  files :: "string \<rightharpoonup> upload"

text \<open>The targets of \<open>url_for\<close>, the rendered templates with their arguments, the responses.\<close>

datatype endpoint = Register | Details | Login | Profile string

datatype page =
    Register_html
  | Login_html
  | Details_html user
  | Profile_html user "nat option" bool int

datatype response =
    Render page
  | Redirect endpoint
  | Attachment string "char list"
  | Abort nat

section \<open>Helpers of the handlers\<close>

definition ALLOWED_EXTENSIONS :: "string set" where
  "ALLOWED_EXTENSIONS = {''txt''}"

definition UPLOAD_FOLDER :: string where
  "UPLOAD_FOLDER = ''uploads''"

text \<open>\<open>UPLOAD_FOLDER / name\<close>.\<close>

definition path_join :: "string \<Rightarrow> string \<Rightarrow> string" where
  "path_join dir name = dir @ ''/'' @ name"

text \<open>\<open>x or ""\<close> for a column value, and the truth value Python gives it.\<close>

definition or_empty :: "string option \<Rightarrow> string" where
  "or_empty x = (case x of None \<Rightarrow> [] | Some s \<Rightarrow> s)"

definition truthy :: "string option \<Rightarrow> bool" where
  "truthy x = (or_empty x \<noteq> [])"

text \<open>\<open>request.form.get(key, "")\<close>.\<close>

definition form_get :: "request \<Rightarrow> string \<Rightarrow> string" where
  "form_get req key = (case form req key of None \<Rightarrow> [] | Some v \<Rightarrow> v)"

text \<open>
  \<open>allowed_file\<close> (app.py, 75-76). The test for a dot comes first, so the element 1 of the
  split is read only where the split has two elements.
\<close>

definition allowed_file :: "string \<Rightarrow> bool" where
  "allowed_file name =
     (CHR ''.'' \<in> set name \<and> lower (rsplit_dot name ! 1) \<in> ALLOWED_EXTENSIONS)"

definition flash :: "string \<Rightarrow> string \<Rightarrow> state \<Rightarrow> state" where
  "flash message category st = st\<lparr>flashes := flashes st @ [(message, category)]\<rparr>"

text \<open>\<open>require_login\<close> (app.py, 79-84): no entry and an empty entry both count as logged out.\<close>

definition require_login :: "state \<Rightarrow> string option \<times> state" where
  "require_login st =
     (if \<not> truthy (session st)
      then (None, flash ''Please log in to continue.'' ''error'' st)
      else (session st, st))"

text \<open>\<open>get_user\<close> (app.py, 87-91): the first row with that username, if there is one.\<close>

definition get_user :: "state \<Rightarrow> string \<Rightarrow> user option \<times> state" where
  "get_user st name =
     (find (\<lambda>r. username r = name) (rows (db st)),
      st\<lparr>reads := reads st @ [RowRead name]\<rparr>)"

text \<open>
  The \<open>INSERT\<close> of \<open>register\<close> (app.py, 143-147) under the schema's \<open>UNIQUE\<close> constraint on
  \<open>username\<close>: \<open>sqlite3.IntegrityError\<close> when a row has the username, else a new row with the
  next id and every other column \<open>NULL\<close>.
\<close>

definition insert_user :: "database \<Rightarrow> string \<Rightarrow> string \<Rightarrow> db_error + database" where
  "insert_user d name hashed =
     (if name \<in> set (map username (rows d)) then Inl IntegrityError
      else Inr (d\<lparr>rows := rows d @
                  [\<lparr>uid = next_id d, username = name, password = Some hashed,
                    firstname = None, lastname = None, email = None, address = None,
                    limerick_filename = None\<rparr>],
                next_id := Suc (next_id d)\<rparr>))"

text \<open>\<open>update_user_details\<close> (app.py, 94-104) and \<open>update_user_file\<close> (app.py, 107-113).\<close>

definition update_user_details ::
  "state \<Rightarrow> string \<Rightarrow> string \<Rightarrow> string \<Rightarrow> string \<Rightarrow> string \<Rightarrow> state" where
  "update_user_details st name fname lname mail addr =
     st\<lparr>db := (db st)\<lparr>rows :=
       map (\<lambda>r. if username r = name
                then r\<lparr>firstname := Some fname, lastname := Some lname,
                       email := Some mail, address := Some addr\<rparr>
                else r) (rows (db st))\<rparr>\<rparr>"

definition update_user_file :: "state \<Rightarrow> string \<Rightarrow> string \<Rightarrow> state" where
  "update_user_file st name fname =
     st\<lparr>db := (db st)\<lparr>rows :=
       map (\<lambda>r. if username r = name then r\<lparr>limerick_filename := Some fname\<rparr> else r)
           (rows (db st))\<rparr>\<rparr>"

text \<open>
  \<open>file.save(destination)\<close> opens the path for writing and writes the bytes of the upload.
  It raises \<open>OSError\<close> when the path is a directory or cannot be opened for writing. The
  bytes replace those of a file that is there, which keeps its permissions; a new file
  can be read.
\<close>

definition save :: "upload \<Rightarrow> string \<Rightarrow> state \<Rightarrow> os_error + state" where
  "save file destination st =
     (if \<not> writable st destination \<or> fs st destination = Some Directory then Inl OSError
      else Inr (st\<lparr>fs := (fs st)(destination \<mapsto>
                  (case fs st destination of
                     Some (Unreadable old) \<Rightarrow> Unreadable (content file)
                   | _ \<Rightarrow> Readable (content file)))\<rparr>))"

text \<open>
  \<open>get_word_count\<close> (app.py, 120-127). \<open>decode\<close> is the reading of the opened file as
  text, which is \<open>read_text\<close>; what does not depend on it is proved for any.
\<close>

definition get_word_count ::
  "(char list \<Rightarrow> nat list) \<Rightarrow> state \<Rightarrow> string option \<Rightarrow> nat option \<times> state" where
  "get_word_count decode st file_path =
     (if \<not> truthy file_path then (None, st)
      else
        (let p = or_empty file_path;
             st' = st\<lparr>reads := reads st @ [FileRead p]\<rparr>
         in case fs st p of
              None \<Rightarrow> (None, st')
            | Some (Readable bytes) \<Rightarrow> (Some (count_words_cp (decode bytes)), st')
            | Some (Unreadable bytes) \<Rightarrow> (None, st')
            | Some Directory \<Rightarrow> (None, st')))"

text \<open>\<open>int(x)\<close> of a float: the fraction is cut off, towards zero.\<close>

definition py_int :: "real \<Rightarrow> int" where
  "py_int x = (if 0 \<le> x then \<lfloor>x\<rfloor> else \<lceil>x\<rceil>)"

text \<open>
  \<open>filled_fields\<close> and \<open>completeness\<close> of \<open>profile\<close> (app.py, 276-281). The quotient
  \<open>filled_fields / 4\<close> is a float; a count of at most four makes it one of 0, 0.25, 0.5,
  0.75 and 1, which floats hold exactly, as they do the products by 100, so the real
  numbers compute what the floats do.
\<close>

definition filled_fields :: "user \<Rightarrow> nat" where
  "filled_fields user =
     length [key \<leftarrow> [firstname, lastname, email, address]. strip (or_empty (key user)) \<noteq> []]"

definition completeness :: "user \<Rightarrow> int" where
  "completeness user = py_int ((real (filled_fields user) / 4) * 100)"

text \<open>The test of \<open>login\<close> for a stored password that carries an algorithm tag (app.py, 199-201).\<close>

definition is_hashed :: "string \<Rightarrow> bool" where
  "is_hashed stored_password =
     (startswith stored_password ''pbkdf2:'' \<or> startswith stored_password ''scrypt:'')"

text \<open>
  Flask's \<open>send_from_directory\<close> with \<open>as_attachment=True\<close>, as far as the handlers need it:
  the file of that name in the directory as an attachment, 404 when no file is there, and
  the server error of an \<open>OSError\<close> nobody catches when the file cannot be read.
\<close>

definition send_from_directory :: "state \<Rightarrow> string \<Rightarrow> string \<Rightarrow> response \<times> state" where
  "send_from_directory st dir name =
     (let p = path_join dir name;
          st' = st\<lparr>reads := reads st @ [FileRead p]\<rparr>
      in case fs st p of
           None \<Rightarrow> (Abort 404, st')
         | Some Directory \<Rightarrow> (Abort 404, st')
         | Some (Unreadable bytes) \<Rightarrow> (Abort 500, st')
         | Some (Readable bytes) \<Rightarrow> (Attachment name bytes, st'))"

section \<open>Route handlers\<close>

text \<open>
  Each handler takes the state and the request and returns the response with the state it
  leaves; an exception that no handler catches is the response 500, with the state as it
  was when it was raised. The functions of werkzeug are parameters: \<open>generate_password_hash\<close>,
  \<open>check_password_hash\<close> and \<open>secure_filename\<close>. The local variables \<open>username\<close> and
  \<open>password\<close> of the source are \<open>uname\<close> and \<open>passwd\<close> here, where the columns have the names.
\<close>

text \<open>\<open>register\<close> (app.py, 130-156).\<close>

definition register :: "(string \<Rightarrow> string) \<Rightarrow> state \<Rightarrow> request \<Rightarrow> response \<times> state" where
  "register generate_password_hash st req =
     (if req_method req = POST then
        (let uname = strip (form_get req ''username'');
             passwd = strip (form_get req ''password'')
         in if uname = [] \<or> passwd = []
            then (Render Register_html, flash ''Username and password are required.'' ''error'' st)
            else
              (let hashed = generate_password_hash passwd
               in case insert_user (db st) uname hashed of
                    Inl IntegrityError \<Rightarrow>
                      (Render Register_html,
                       flash ''That username is already taken. Try another.'' ''error'' st)
                  | Inr d \<Rightarrow>
                      (Redirect Details,
                       flash ''Account created. Add your details below.'' ''success''
                         (st\<lparr>db := d, session := Some uname\<rparr>))))
      else (Render Register_html, st))"

text \<open>\<open>details\<close> (app.py, 159-180).\<close>

definition details :: "state \<Rightarrow> request \<Rightarrow> response \<times> state" where
  "details st req =
     (case require_login st of
        (None, st1) \<Rightarrow> (Redirect Login, st1)
      | (Some uname, st1) \<Rightarrow>
          (case get_user st1 uname of
             (None, st2) \<Rightarrow>
               (Redirect Register, flash ''Account not found. Please register again.'' ''error'' st2)
           | (Some user, st2) \<Rightarrow>
               if req_method req = POST then
                 (let fname = strip (form_get req ''firstname'');
                      lname = strip (form_get req ''lastname'');
                      mail = strip (form_get req ''email'');
                      addr = strip (form_get req ''address'')
                  in (Redirect (Profile uname),
                      flash ''Profile details saved.'' ''success''
                        (update_user_details st2 uname fname lname mail addr)))
               else (Render (Details_html user), st2)))"

text \<open>
  \<open>valid\<close> of \<open>login\<close> (app.py, 198-205): a stored password with an algorithm tag is
  checked by \<open>check_password_hash\<close>, any other is compared with the candidate as it is.
\<close>

definition valid :: "(string \<Rightarrow> string \<Rightarrow> bool) \<Rightarrow> user \<Rightarrow> string \<Rightarrow> bool" where
  "valid check_password_hash user passwd =
     (let stored_password = or_empty (password user)
      in if is_hashed stored_password
         then check_password_hash stored_password passwd
         else stored_password = passwd)"

text \<open>\<open>login\<close> (app.py, 183-215).\<close>

definition login ::
  "(string \<Rightarrow> string \<Rightarrow> bool) \<Rightarrow> state \<Rightarrow> request \<Rightarrow> response \<times> state" where
  "login check_password_hash st req =
     (if req_method req = POST then
        (let uname = strip (form_get req ''username'');
             passwd = strip (form_get req ''password'')
         in if uname = [] \<or> passwd = []
            then (Render Login_html, flash ''Both fields are required.'' ''error'' st)
            else
              (case get_user st uname of
                 (None, st1) \<Rightarrow>
                   (Render Login_html, flash ''Invalid username or password.'' ''error'' st1)
               | (Some user, st1) \<Rightarrow>
                   if \<not> valid check_password_hash user passwd
                   then (Render Login_html,
                         flash ''Invalid username or password.'' ''error'' st1)
                   else (Redirect (Profile uname),
                         flash ''Welcome back!'' ''success'' (st1\<lparr>session := Some uname\<rparr>))))
      else (Render Login_html, st))"

text \<open>
  \<open>logout\<close> (app.py, 218-222). Flask keeps the flashed notices in the session, so
  \<open>session.clear()\<close> drops those that are pending with the username.
\<close>

definition logout :: "state \<Rightarrow> response \<times> state" where
  "logout st =
     (Redirect Login,
      flash ''You are now logged out.'' ''success'' (st\<lparr>session := None, flashes := []\<rparr>))"

text \<open>\<open>profile\<close> (app.py, 225-290).\<close>

definition profile ::
  "(string \<Rightarrow> string) \<Rightarrow> (char list \<Rightarrow> nat list) \<Rightarrow> state \<Rightarrow> request \<Rightarrow> string
     \<Rightarrow> response \<times> state" where
  "profile secure_filename decode st req uname =
     (case require_login st of
        (None, st1) \<Rightarrow> (Redirect Login, st1)
      | (Some current_user, st1) \<Rightarrow>
          if current_user \<noteq> uname
          then (Redirect (Profile current_user),
                flash ''You can only access your own profile.'' ''error'' st1)
          else
            (case get_user st1 uname of
               (None, st2) \<Rightarrow> (Redirect Register, flash ''Profile not found.'' ''error'' st2)
             | (Some user, st2) \<Rightarrow>
                 if req_method req = POST then
                   (case files req ''limerick'' of
                      None \<Rightarrow>
                        (Redirect (Profile uname),
                         flash ''Please choose a file to upload.'' ''error'' st2)
                    | Some file \<Rightarrow>
                        if filename file = []
                        then (Redirect (Profile uname), flash ''No file selected.'' ''error'' st2)
                        else if \<not> allowed_file (filename file)
                        then (Redirect (Profile uname),
                              flash ''Only .txt files are allowed.'' ''error'' st2)
                        else
                          (let safe_name = secure_filename (filename file);
                               stored_name = uname @ ''_Limerick.txt'';
                               st3 = (if lower safe_name \<noteq> ''limerick.txt''
                                      then flash
                                        ''Uploaded file accepted. For grading, Limerick.txt is recommended.''
                                        ''info'' st2
                                      else st2);
                               destination = path_join UPLOAD_FOLDER stored_name
                           in case save file destination st3 of
                                Inl OSError \<Rightarrow> (Abort 500, st3)
                              | Inr st4 \<Rightarrow>
                                  (let st5 = update_user_file st4 uname stored_name;
                                       (word_count, st6) =
                                         get_word_count decode st5 (Some destination);
                                       st7 = (case word_count of
                                                None \<Rightarrow>
                                                  flash
                                                    ''File uploaded, but word count could not be read.''
                                                    ''error'' st6
                                              | Some n \<Rightarrow>
                                                  flash
                                                    (''File uploaded. Word count: '' @ digits n)
                                                    ''success'' st6)
                                   in (Redirect (Profile uname), st7))))
                 else
                   (let (word_count, st3) =
                          (if truthy (limerick_filename user)
                           then get_word_count decode st2
                                  (Some (path_join UPLOAD_FOLDER (or_empty (limerick_filename user))))
                           else (None, st2))
                    in (Render (Profile_html user word_count (truthy (limerick_filename user))
                                  (completeness user)),
                        st3))))"

text \<open>\<open>download\<close> (app.py, 293-311).\<close>

definition download :: "state \<Rightarrow> string \<Rightarrow> response \<times> state" where
  "download st uname =
     (case require_login st of
        (None, st1) \<Rightarrow> (Redirect Login, st1)
      | (Some current_user, st1) \<Rightarrow>
          if current_user \<noteq> uname
          then (Redirect (Profile current_user),
                flash ''You can only download your own file.'' ''error'' st1)
          else
            (case get_user st1 uname of
               (None, st2) \<Rightarrow>
                 (Redirect (Profile uname), flash ''No file available to download.'' ''error'' st2)
             | (Some user, st2) \<Rightarrow>
                 if \<not> truthy (limerick_filename user)
                 then (Redirect (Profile uname),
                       flash ''No file available to download.'' ''error'' st2)
                 else send_from_directory st2 UPLOAD_FOLDER (or_empty (limerick_filename user))))"

text \<open>
  The specification's count of filled fields, written from its words: a field is empty
  after trimming when it is \<open>NULL\<close> or holds nothing but whitespace, and the fields
  that are not are counted.
\<close>

definition blank :: "string option \<Rightarrow> bool" where
  "blank field = (case field of None \<Rightarrow> True | Some s \<Rightarrow> list_all isspace s)"

definition spec_filled :: "user \<Rightarrow> nat" where
  "spec_filled u = length [field \<leftarrow> [firstname u, lastname u, email u, address u]. \<not> blank field]"

section \<open>An instance to run the handlers on\<close>

text \<open>
  Stand-ins for the functions of werkzeug, and a table with two users:
  \<open>alice\<close>, registered through the application, with only her email filled in, and \<open>bob\<close>,
  a row from before hashing, with a plain password, blank details and an uploaded file.
\<close>

definition demo_hash :: "string \<Rightarrow> string" where
  "demo_hash p = ''pbkdf2:'' @ rev p"

definition demo_check :: "string \<Rightarrow> string \<Rightarrow> bool" where
  "demo_check stored p = (stored = demo_hash p)"

definition demo_secure :: "string \<Rightarrow> string" where
  "demo_secure name = filter (\<lambda>c. c \<noteq> CHR ''/'') name"

definition alice :: user where
  "alice = \<lparr>uid = 1, username = ''alice'', password = Some ''pbkdf2:dnalrednow'',
             firstname = None, lastname = None, email = Some ''alice@example.org'',
             address = None, limerick_filename = None\<rparr>"

definition bob :: user where
  "bob = \<lparr>uid = 2, username = ''bob'', password = Some ''hunter2'',
           firstname = Some '' '', lastname = Some '' '', email = Some '' '',
           address = Some '' '', limerick_filename = Some ''bob_Limerick.txt''\<rparr>"

definition demo_state :: "string option \<Rightarrow> state" where
  "demo_state who =
     \<lparr>db = \<lparr>rows = [alice, bob], next_id = 3\<rparr>, session = who, flashes = [],
      fs = [''uploads/bob_Limerick.txt'' \<mapsto> Readable ''There was a young coder''],
      writable = (\<lambda>p. True), reads = []\<rparr>"

definition post_form :: "(string \<times> string) list \<Rightarrow> request" where
  "post_form kvs = \<lparr>req_method = POST, form = map_of kvs, files = Map.empty\<rparr>"

definition post_file :: "string \<Rightarrow> char list \<Rightarrow> request" where
  "post_file name bytes =
     \<lparr>req_method = POST, form = Map.empty,
      files = [''limerick'' \<mapsto> \<lparr>filename = name, content = bytes\<rparr>]\<rparr>"

definition get_request :: request where
  "get_request = \<lparr>req_method = GET, form = Map.empty, files = Map.empty\<rparr>"


text \<open>
  A file with bytes that are no UTF-8: a lone 0xFF, a lead byte 0xC3 before an ASCII
  character, a euro sign, well formed, and one cut short by the end of the file.
\<close>

definition garbled :: "char list" where
  "garbled = [CHR ''a'', CHR 0xFF, CHR ''b'', CHR '' '', CHR 0xC3, CHR ''('', CHR ''c'',
              CHR 0x0D, CHR 0x0A, CHR 0xE2, CHR 0x82, CHR 0xAC, CHR 0xE2, CHR 0x82]"

section \<open>The word counter counts the whitespace-delimited words\<close>

declare split_ws.simps [simp del] spec_tokens.simps [simp del]

lemma split_ws_dropWhile: "split_ws (dropWhile isspace s) = split_ws s"
  by (subst (1 2) split_ws.simps) simp

lemma split_ws_Nil: "split_ws [] = []"
  by (subst split_ws.simps) simp

lemma split_ws_word:
  "\<not> isspace c \<Longrightarrow>
   split_ws (c # cs) = (c # takeWhile (\<lambda>x. \<not> isspace x) cs)
                       # split_ws (dropWhile (\<lambda>x. \<not> isspace x) cs)"
  by (subst split_ws.simps) simp

lemma spec_tokens_Nil: "spec_tokens [] = [[]]"
  by (subst spec_tokens.simps) simp

lemma spec_tokens_space:
  "isspace c \<Longrightarrow> spec_tokens (c # cs) = [] # spec_tokens (dropWhile isspace (c # cs))"
  by (subst spec_tokens.simps) simp

lemma spec_tokens_word:
  "\<not> isspace c \<Longrightarrow>
   spec_tokens (c # cs) =
     (if dropWhile (\<lambda>x. \<not> isspace x) cs = []
      then [c # takeWhile (\<lambda>x. \<not> isspace x) cs]
      else (c # takeWhile (\<lambda>x. \<not> isspace x) cs)
           # spec_tokens (dropWhile isspace (dropWhile (\<lambda>x. \<not> isspace x) cs)))"
  by (subst spec_tokens.simps) (simp add: Let_def)

lemma spec_tokens_split_ws: "[t \<leftarrow> spec_tokens s. t \<noteq> []] = split_ws s"
proof (induction s rule: spec_tokens.induct)
  case (1 s)
  show ?case
  proof (cases s)
    case Nil
    then show ?thesis by (simp add: spec_tokens_Nil split_ws_Nil)
  next
    case (Cons c cs)
    show ?thesis
    proof (cases "isspace c")
      case True
      with Cons have "dropWhile (\<lambda>x. \<not> isspace x) s = s" by simp
      then have "[t \<leftarrow> spec_tokens (dropWhile isspace s). t \<noteq> []] = split_ws (dropWhile isspace s)"
        using 1[OF refl refl] Cons by (simp del: dropWhile.simps)
      then show ?thesis
        using True Cons by (simp add: spec_tokens_space split_ws_dropWhile del: dropWhile.simps)
    next
      case False
      define rest where "rest = dropWhile (\<lambda>x. \<not> isspace x) cs"
      define tok where "tok = c # takeWhile (\<lambda>x. \<not> isspace x) cs"
      have rest: "dropWhile (\<lambda>x. \<not> isspace x) s = rest"
        using Cons False by (simp add: rest_def)
      have sw: "split_ws s = tok # split_ws rest"
        unfolding Cons rest_def tok_def using False by (rule split_ws_word)
      have st: "spec_tokens s =
                (if rest = [] then [tok] else tok # spec_tokens (dropWhile isspace rest))"
        unfolding Cons rest_def tok_def using False by (rule spec_tokens_word)
      have tok: "tok \<noteq> []" by (simp add: tok_def)
      show ?thesis
      proof (cases "rest = []")
        case True
        then show ?thesis
          using tok by (simp add: st sw split_ws_Nil)
      next
        case ne: False
        have "[t \<leftarrow> spec_tokens (dropWhile isspace rest). t \<noteq> []] = split_ws (dropWhile isspace rest)"
          using 1[OF refl refl] ne rest by (simp del: dropWhile.simps)
        then show ?thesis
          using tok ne by (simp add: st sw split_ws_dropWhile)
      qed
    qed
  qed
qed

lemma split_ws_space: "isspace c \<Longrightarrow> split_ws (c # cs) = split_ws cs"
  by (subst (1 2) split_ws.simps) simp

lemma strip_no_space:
  assumes "w \<noteq> []" "list_all (\<lambda>x. \<not> isspace x) w"
  shows "strip w = w"
proof -
  from assms have "dropWhile isspace w = w" by (cases w) auto
  moreover have "dropWhile isspace (rev w) = rev w"
  proof (cases "rev w")
    case Nil
    then show ?thesis by simp
  next
    case (Cons a as)
    then have "a \<in> set w" by (metis list.set_intros(1) set_rev)
    with assms(2) have "\<not> isspace a" by (simp add: list_all_iff)
    with Cons show ?thesis by simp
  qed
  ultimately show ?thesis by (simp add: strip_def)
qed

lemma split_ws_words:
  "list_all (\<lambda>w. w \<noteq> [] \<and> list_all (\<lambda>x. \<not> isspace x) w) (split_ws s)"
proof (induction s rule: split_ws.induct)
  case (1 s)
  show ?case
  proof (cases "dropWhile isspace s")
    case Nil
    then show ?thesis by (subst split_ws.simps) (simp del: dropWhile_eq_Nil_conv)
  next
    case (Cons c cs)
    then have "\<not> isspace c" by (metis hd_dropWhile list.sel(1) list.distinct(1))
    moreover have "list_all (\<lambda>x. \<not> isspace x) (takeWhile (\<lambda>x. \<not> isspace x) cs)"
      by (simp add: list_all_iff) (metis set_takeWhileD)
    ultimately show ?thesis
      using 1[OF Cons] Cons by (subst split_ws.simps) simp
  qed
qed

lemma split_ws_filter: "[word \<leftarrow> split_ws s. strip word \<noteq> []] = split_ws s"
proof -
  have "\<forall>w \<in> set (split_ws s). strip w \<noteq> []"
    using split_ws_words[of s] strip_no_space by (auto simp: list_all_iff)
  then show ?thesis by (simp add: filter_id_conv)
qed


text \<open>
  Claim C4. For every text, \<open>count_words\<close> is the number of non-empty tokens that cutting
  the text at its maximal runs of whitespace gives; the empty text has 0 words,
  \<open>"a b  c"\<close> has 3 and \<open>"   "\<close> has 0.
\<close>

theorem count_words_spec:
  "count_words s = spec_count s \<and>
   count_words [] = 0 \<and> count_words ''a b  c'' = 3 \<and> count_words ''   '' = 0"
proof -
  have "count_words s = spec_count s"
    by (simp add: count_words_def spec_count_def split_ws_filter spec_tokens_split_ws)
  moreover have "count_words [] = 0" by (simp add: count_words_def split_ws_Nil)
  moreover have "count_words ''a b  c'' = 3"
    by (simp add: count_words_def split_ws_Nil split_ws_word split_ws_space isspace_def strip_def)
  moreover have "count_words ''   '' = 0"
    by (simp add: count_words_def split_ws_Nil split_ws_space isspace_def)
  ultimately show ?thesis by simp
qed

section \<open>Login, registration and ownership\<close>

lemma truthy_Some: "truthy (Some u) = (u \<noteq> [])"
  by (simp add: truthy_def or_empty_def)

lemma require_login_in:
  "session st = Some u \<Longrightarrow> u \<noteq> [] \<Longrightarrow> require_login st = (Some u, st)"
  by (simp add: require_login_def truthy_Some)

lemmas demo_defs =
  demo_state_def alice_def bob_def post_form_def post_file_def get_request_def
  demo_hash_def demo_check_def demo_secure_def

lemmas str_defs = strip_def isspace_def form_get_def

text \<open>
  Claim C1. A login POST whose username and password are non-empty after trimming, and
  whose username has no row or whose password fails the verification against the row,
  ends the same way in both cases: the login form again, the one notice
  \<open>Invalid username or password.\<close> flashed, and the session, the table and the
  directory as they were.
\<close>

theorem login_failure_generic:
  assumes "req_method req = POST"
    and "strip (form_get req ''username'') = uname" and "uname \<noteq> []"
    and "strip (form_get req ''password'') = passwd" and "passwd \<noteq> []"
    and "find (\<lambda>r. username r = uname) (rows (db st)) = None \<or>
         (\<exists>user. find (\<lambda>r. username r = uname) (rows (db st)) = Some user \<and>
                 \<not> valid check_password_hash user passwd)"
  shows "login check_password_hash st req =
           (Render Login_html,
            st\<lparr>flashes := flashes st @ [(''Invalid username or password.'', ''error'')],
               reads := reads st @ [RowRead uname]\<rparr>)"
  using assms by (auto simp: login_def get_user_def flash_def)

theorem login_failure_generic_witness:
  "login demo_check (demo_state None) (post_form [(''username'', ''carol''), (''password'', ''hunter2'')]) =
     (Render Login_html,
      (demo_state None)\<lparr>flashes := [(''Invalid username or password.'', ''error'')],
                         reads := [RowRead ''carol'']\<rparr>) \<and>
   login demo_check (demo_state None) (post_form [(''username'', ''alice''), (''password'', ''hunter2'')]) =
     (Render Login_html,
      (demo_state None)\<lparr>flashes := [(''Invalid username or password.'', ''error'')],
                         reads := [RowRead ''alice'']\<rparr>)"
proof -
  have 1: "login demo_check (demo_state None) (post_form [(''username'', ''carol''), (''password'', ''hunter2'')]) =
     (Render Login_html,
      (demo_state None)\<lparr>flashes := flashes (demo_state None) @ [(''Invalid username or password.'', ''error'')],
                         reads := reads (demo_state None) @ [RowRead ''carol'']\<rparr>)"
    by (rule login_failure_generic[where passwd = "''hunter2''"])
       (simp_all add: demo_defs str_defs)
  have 2: "login demo_check (demo_state None) (post_form [(''username'', ''alice''), (''password'', ''hunter2'')]) =
     (Render Login_html,
      (demo_state None)\<lparr>flashes := flashes (demo_state None) @ [(''Invalid username or password.'', ''error'')],
                         reads := reads (demo_state None) @ [RowRead ''alice'']\<rparr>)"
    by (rule login_failure_generic[where passwd = "''hunter2''"])
       (simp_all add: demo_defs str_defs valid_def or_empty_def is_hashed_def startswith_def)
  show ?thesis using 1 2 by (simp add: demo_state_def)
qed


text \<open>
  Claim C8. For a login POST that finds a row: a stored password that begins with
  \<open>pbkdf2:\<close> or \<open>scrypt:\<close> lets the login through exactly when the hash check accepts
  the candidate; any other stored password lets it through exactly when it equals the
  candidate.
\<close>

theorem login_decided_by_verification:
  assumes "req_method req = POST"
    and "strip (form_get req ''username'') = uname" and "uname \<noteq> []"
    and "strip (form_get req ''password'') = passwd" and "passwd \<noteq> []"
    and "find (\<lambda>r. username r = uname) (rows (db st)) = Some user"
    and "or_empty (password user) = stored"
  shows "login check_password_hash st req =
           (if (if startswith stored ''pbkdf2:'' \<or> startswith stored ''scrypt:''
                then check_password_hash stored passwd
                else stored = passwd)
            then (Redirect (Profile uname),
                  st\<lparr>session := Some uname,
                     flashes := flashes st @ [(''Welcome back!'', ''success'')],
                     reads := reads st @ [RowRead uname]\<rparr>)
            else (Render Login_html,
                  st\<lparr>flashes := flashes st @ [(''Invalid username or password.'', ''error'')],
                     reads := reads st @ [RowRead uname]\<rparr>))"
  using assms by (simp add: login_def get_user_def flash_def valid_def is_hashed_def)

theorem login_decided_by_verification_witness:
  "login demo_check (demo_state None)
     (post_form [(''username'', ''bob''), (''password'', '' hunter2 '')]) =
     (Redirect (Profile ''bob''),
      (demo_state None)\<lparr>session := Some ''bob'',
                         flashes := [(''Welcome back!'', ''success'')],
                         reads := [RowRead ''bob'']\<rparr>) \<and>
   login demo_check (demo_state None)
     (post_form [(''username'', ''alice''), (''password'', ''wonderland'')]) =
     (Redirect (Profile ''alice''),
      (demo_state None)\<lparr>session := Some ''alice'',
                         flashes := [(''Welcome back!'', ''success'')],
                         reads := [RowRead ''alice'']\<rparr>)"
proof -
  have 1: "login demo_check (demo_state None)
     (post_form [(''username'', ''bob''), (''password'', '' hunter2 '')]) =
     (Redirect (Profile ''bob''),
      (demo_state None)\<lparr>session := Some ''bob'',
                         flashes := [(''Welcome back!'', ''success'')],
                         reads := [RowRead ''bob'']\<rparr>)"
    using login_decided_by_verification[of
        "post_form [(''username'', ''bob''), (''password'', '' hunter2 '')]"
        "''bob''" "''hunter2''" "demo_state None" bob "''hunter2''" demo_check]
    by (simp add: demo_defs str_defs or_empty_def startswith_def)
  have 2: "login demo_check (demo_state None)
     (post_form [(''username'', ''alice''), (''password'', ''wonderland'')]) =
     (Redirect (Profile ''alice''),
      (demo_state None)\<lparr>session := Some ''alice'',
                         flashes := [(''Welcome back!'', ''success'')],
                         reads := [RowRead ''alice'']\<rparr>)"
    using login_decided_by_verification[of
        "post_form [(''username'', ''alice''), (''password'', ''wonderland'')]"
        "''alice''" "''wonderland''" "demo_state None" alice "''pbkdf2:dnalrednow''" demo_check]
    by (simp add: demo_defs str_defs or_empty_def startswith_def)
  show ?thesis using 1 2 by simp
qed

text \<open>
  Claim C2, as stated, fails: a register POST with the username of an existing row and an
  empty password is answered by the check for empty fields, before any \<open>INSERT\<close>.
\<close>

theorem register_duplicate_needs_password:
  "''alice'' \<in> set (map username (rows (db (demo_state None)))) \<and>
   register demo_hash (demo_state None) (post_form [(''username'', ''alice''), (''password'', [])]) =
     (Render Register_html,
      (demo_state None)\<lparr>flashes := [(''Username and password are required.'', ''error'')]\<rparr>)"
  by (simp add: register_def flash_def demo_defs str_defs)

text \<open>
  Claim C2, amended. A register POST whose trimmed username already has a row shows the
  register form again with one error notice and leaves the session and the table as they
  were; when username and password are non-empty after trimming, the \<open>INSERT\<close> fails
  with \<open>IntegrityError\<close> and the notice is the one for a taken username.
\<close>

theorem register_duplicate:
  assumes "req_method req = POST"
    and "strip (form_get req ''username'') = uname"
    and "strip (form_get req ''password'') = passwd"
    and "uname \<in> set (map username (rows (db st)))"
  shows "\<exists>message.
           register generate_password_hash st req =
             (Render Register_html, st\<lparr>flashes := flashes st @ [(message, ''error'')]\<rparr>) \<and>
           (uname \<noteq> [] \<and> passwd \<noteq> [] \<longrightarrow>
              insert_user (db st) uname (generate_password_hash passwd) = Inl IntegrityError \<and>
              message = ''That username is already taken. Try another.'')"
  using assms by (auto simp: register_def flash_def insert_user_def)

theorem register_duplicate_witness:
  "insert_user (db (demo_state None)) ''alice'' (demo_hash ''rabbit'') = Inl IntegrityError \<and>
   register demo_hash (demo_state None)
     (post_form [(''username'', '' alice''), (''password'', ''rabbit'')]) =
     (Render Register_html,
      (demo_state None)\<lparr>flashes := [(''That username is already taken. Try another.'', ''error'')]\<rparr>)"
  using register_duplicate[of
      "post_form [(''username'', '' alice''), (''password'', ''rabbit'')]"
      "''alice''" "''rabbit''" "demo_state None" demo_hash]
  by (simp add: demo_state_def alice_def bob_def post_form_def str_defs)

text \<open>
  Claim C3. A request for the profile or the download of another user than the one logged
  in is redirected to the profile of the user logged in, with an error notice; it is no
  404, and no row and no file has been read.
\<close>

theorem foreign_profile_redirects:
  assumes "session st = Some current_user" and "current_user \<noteq> []"
    and "current_user \<noteq> uname"
  shows "profile secure_filename decode st req uname =
           (Redirect (Profile current_user),
            st\<lparr>flashes := flashes st @ [(''You can only access your own profile.'', ''error'')]\<rparr>)
       \<and> download st uname =
           (Redirect (Profile current_user),
            st\<lparr>flashes := flashes st @ [(''You can only download your own file.'', ''error'')]\<rparr>)
       \<and> reads (snd (profile secure_filename decode st req uname)) = reads st
       \<and> reads (snd (download st uname)) = reads st"
  using assms by (simp add: profile_def download_def require_login_in flash_def)

theorem foreign_profile_redirects_witness:
  "profile demo_secure read_text (demo_state (Some ''alice'')) get_request ''bob'' =
     (Redirect (Profile ''alice''),
      (demo_state (Some ''alice''))\<lparr>flashes := [(''You can only access your own profile.'', ''error'')]\<rparr>)
   \<and> download (demo_state (Some ''alice'')) ''bob'' =
     (Redirect (Profile ''alice''),
      (demo_state (Some ''alice''))\<lparr>flashes := [(''You can only download your own file.'', ''error'')]\<rparr>)
   \<and> reads (snd (profile demo_secure read_text (demo_state (Some ''alice'')) get_request ''bob'')) = []
   \<and> reads (snd (download (demo_state (Some ''alice'')) ''bob'')) = []"
  using foreign_profile_redirects[of "demo_state (Some ''alice'')" "''alice''" "''bob''"
      demo_secure read_text get_request]
  by (simp add: demo_state_def)

section \<open>Upload, completeness and the word count of a file\<close>

lemma rsplit_dot_ext:
  assumes "CHR ''.'' \<notin> set ext"
  shows "rsplit_dot (pre @ CHR ''.'' # ext) = [pre, ext]"
proof -
  have r: "rev (pre @ CHR ''.'' # ext) = rev ext @ CHR ''.'' # rev pre" by simp
  have t: "takeWhile (\<lambda>x. x \<noteq> CHR ''.'') (rev ext @ CHR ''.'' # rev pre) = rev ext"
    using assms by (subst takeWhile_append2) auto
  have d: "dropWhile (\<lambda>x. x \<noteq> CHR ''.'') (rev ext @ CHR ''.'' # rev pre) = CHR ''.'' # rev pre"
    using assms by (subst dropWhile_append2) auto
  have "CHR ''.'' \<in> set (pre @ CHR ''.'' # ext)" by simp
  then show ?thesis
    unfolding rsplit_dot_def r t d by simp
qed

lemma allowed_file_ext:
  "CHR ''.'' \<notin> set ext \<Longrightarrow> allowed_file (pre @ CHR ''.'' # ext) = (lower ext = ''txt'')"
  by (simp add: allowed_file_def rsplit_dot_ext ALLOWED_EXTENSIONS_def)

lemma allowed_file_nodot: "CHR ''.'' \<notin> set name \<Longrightarrow> \<not> allowed_file name"
  by (simp add: allowed_file_def)

lemma lower_TXT: "lower ''TXT'' = ''txt''"
  by (simp add: lower_def lower_char_def char_of_def bit_Suc_0_iff)

lemma lower_doc: "lower ''doc'' = ''doc''"
  by (simp add: lower_def lower_char_def)

lemma allowed_examples: "\<not> allowed_file ''notes.doc'' \<and> allowed_file ''Limerick.TXT''"
  using allowed_file_ext[of "''doc''" "''notes''"] allowed_file_ext[of "''TXT''" "''Limerick''"]
  by (simp add: lower_TXT lower_doc)

lemma strip_empty: "(strip s = []) = list_all isspace s"
proof (cases "dropWhile isspace s")
  case Nil
  then have "strip s = []" unfolding strip_def by (simp only: rev.simps dropWhile.simps)
  moreover from Nil have "\<forall>x\<in>set s. isspace x" by (simp only: dropWhile_eq_Nil_conv)
  ultimately show ?thesis by (simp add: list_all_iff)
next
  case (Cons c cs)
  then have c: "\<not> isspace c" by (metis hd_dropWhile list.sel(1) list.distinct(1))
  have "c \<in> set (dropWhile isspace s)" using Cons by simp
  then have "c \<in> set s" by (metis set_dropWhileD)
  with c have ex: "\<not> list_all isspace s" by (auto simp: list_all_iff)
  have "c \<in> set (rev (c # cs))" by simp
  with c have "dropWhile isspace (rev (c # cs)) \<noteq> []"
    by (simp only: dropWhile_eq_Nil_conv, blast)
  with Cons ex show ?thesis by (simp add: strip_def)
qed

lemma strip_or_empty: "(strip (or_empty field) = []) = blank field"
  by (cases field) (simp_all add: or_empty_def blank_def strip_empty)

lemma filled_fields_spec: "filled_fields u = spec_filled u"
  by (simp add: filled_fields_def spec_filled_def strip_or_empty)

lemma completeness_25: "completeness u = 25 * int (spec_filled u)"
proof -
  have "real (spec_filled u) / 4 * 100 = real_of_int (25 * int (spec_filled u))" by simp
  then show ?thesis
    by (simp only: completeness_def filled_fields_spec py_int_def floor_of_int ceiling_of_int if_cancel)
qed


declare digits.simps [simp del]


text \<open>
  Claim C5. An upload POST by the owner is checked in this order, and the first check that
  fails ends the request with its notice and nothing stored: no file part, then an empty
  filename, then a filename that \<open>allowed_file\<close> refuses. For a name with a dot,
  \<open>allowed_file\<close> compares what follows the last dot, lowered, with \<open>txt\<close>: it refuses
  \<open>notes.doc\<close> and accepts \<open>Limerick.TXT\<close>.
\<close>

theorem upload_validation_order:
  assumes "session st = Some uname" and "uname \<noteq> []"
    and "find (\<lambda>r. username r = uname) (rows (db st)) = Some user"
    and "req_method req = POST"
  shows "(files req ''limerick'' = None \<longrightarrow>
            profile secure_filename decode st req uname =
              (Redirect (Profile uname),
               st\<lparr>flashes := flashes st @ [(''Please choose a file to upload.'', ''error'')],
                  reads := reads st @ [RowRead uname]\<rparr>))
       \<and> (\<forall>file. files req ''limerick'' = Some file \<and> filename file = [] \<longrightarrow>
            profile secure_filename decode st req uname =
              (Redirect (Profile uname),
               st\<lparr>flashes := flashes st @ [(''No file selected.'', ''error'')],
                  reads := reads st @ [RowRead uname]\<rparr>))
       \<and> (\<forall>file. files req ''limerick'' = Some file \<and> filename file \<noteq> []
                 \<and> \<not> allowed_file (filename file) \<longrightarrow>
            profile secure_filename decode st req uname =
              (Redirect (Profile uname),
               st\<lparr>flashes := flashes st @ [(''Only .txt files are allowed.'', ''error'')],
                  reads := reads st @ [RowRead uname]\<rparr>))
       \<and> (\<forall>pre ext. CHR ''.'' \<notin> set ext \<longrightarrow>
            allowed_file (pre @ ''.'' @ ext) = (lower ext = ''txt''))
       \<and> \<not> allowed_file ''notes.doc'' \<and> allowed_file ''Limerick.TXT''"
proof -
  have own: "require_login st = (Some uname, st)"
    using assms(1,2) by (simp add: require_login_def truthy_def or_empty_def)
  show ?thesis
    using assms(3,4) allowed_examples
    by (simp add: profile_def own get_user_def flash_def allowed_file_ext)
qed

theorem upload_validation_order_witness:
  "profile demo_secure read_text (demo_state (Some ''alice'')) (post_form []) ''alice'' =
     (Redirect (Profile ''alice''),
      (demo_state (Some ''alice''))
        \<lparr>flashes := [(''Please choose a file to upload.'', ''error'')],
         reads := [RowRead ''alice'']\<rparr>)
   \<and> profile demo_secure read_text (demo_state (Some ''alice'')) (post_file ''notes.doc'' ''a b'') ''alice'' =
     (Redirect (Profile ''alice''),
      (demo_state (Some ''alice''))
        \<lparr>flashes := [(''Only .txt files are allowed.'', ''error'')],
         reads := [RowRead ''alice'']\<rparr>)"
proof -
  have n: "\<not> allowed_file ''notes.doc''" using allowed_examples by simp
  have 1: "profile demo_secure read_text (demo_state (Some ''alice'')) (post_form []) ''alice'' =
     (Redirect (Profile ''alice''),
      (demo_state (Some ''alice''))
        \<lparr>flashes := [(''Please choose a file to upload.'', ''error'')],
         reads := [RowRead ''alice'']\<rparr>)"
    using upload_validation_order[of "demo_state (Some ''alice'')" "''alice''" alice
        "post_form []" demo_secure read_text]
    by (simp add: demo_state_def post_form_def alice_def bob_def)
  have 2: "profile demo_secure read_text (demo_state (Some ''alice'')) (post_file ''notes.doc'' ''a b'') ''alice'' =
     (Redirect (Profile ''alice''),
      (demo_state (Some ''alice''))
        \<lparr>flashes := [(''Only .txt files are allowed.'', ''error'')],
         reads := [RowRead ''alice'']\<rparr>)"
    using n upload_validation_order[of "demo_state (Some ''alice'')" "''alice''" alice
        "post_file ''notes.doc'' ''a b''" demo_secure read_text]
    by (simp add: demo_state_def post_file_def alice_def bob_def)
  show ?thesis using 1 2 by simp
qed


text \<open>
  Claim C9, as stated, fails: the empty filename has no dot, and an upload with it is
  refused with \<open>No file selected.\<close>, the notice of the check before the extension.
\<close>

theorem empty_filename_rejected_first:
  "CHR ''.'' \<notin> set (filename \<lparr>filename = [], content = ''a b''\<rparr>) \<and>
   profile demo_secure read_text (demo_state (Some ''alice'')) (post_file [] ''a b'') ''alice'' =
     (Redirect (Profile ''alice''),
      (demo_state (Some ''alice''))
        \<lparr>flashes := [(''No file selected.'', ''error'')], reads := [RowRead ''alice'']\<rparr>)"
  by (simp add: profile_def require_login_def truthy_def or_empty_def get_user_def flash_def
        demo_state_def post_file_def alice_def bob_def)

text \<open>
  Claim C9, amended. \<open>allowed_file\<close> refuses every filename without a dot, and an upload
  by the owner with such a filename that is not empty is refused with the notice for a
  disallowed extension.
\<close>

theorem no_dot_rejected:
  assumes "session st = Some uname" and "uname \<noteq> []"
    and "find (\<lambda>r. username r = uname) (rows (db st)) = Some user"
    and "req_method req = POST"
    and "files req ''limerick'' = Some file"
    and "CHR ''.'' \<notin> set (filename file)"
  shows "\<not> allowed_file (filename file)
       \<and> (filename file \<noteq> [] \<longrightarrow>
            profile secure_filename decode st req uname =
              (Redirect (Profile uname),
               st\<lparr>flashes := flashes st @ [(''Only .txt files are allowed.'', ''error'')],
                  reads := reads st @ [RowRead uname]\<rparr>))"
proof -
  have own: "require_login st = (Some uname, st)"
    using assms(1,2) by (simp add: require_login_def truthy_def or_empty_def)
  have n: "\<not> allowed_file (filename file)"
    using assms(6) by (rule allowed_file_nodot)
  show ?thesis
    using assms(3-5) n by (simp add: profile_def own get_user_def flash_def)
qed

theorem no_dot_rejected_witness:
  "\<not> allowed_file ''README''
   \<and> profile demo_secure read_text (demo_state (Some ''alice'')) (post_file ''README'' ''a b'') ''alice'' =
     (Redirect (Profile ''alice''),
      (demo_state (Some ''alice''))
        \<lparr>flashes := [(''Only .txt files are allowed.'', ''error'')],
         reads := [RowRead ''alice'']\<rparr>)"
  using no_dot_rejected[of "demo_state (Some ''alice'')" "''alice''" alice
      "post_file ''README'' ''a b''" "\<lparr>filename = ''README'', content = ''a b''\<rparr>"
      demo_secure read_text]
  by (simp add: demo_state_def post_file_def alice_def bob_def)


text \<open>
  Claim C7. The profile page of a GET shows \<open>completeness\<close> of the row, which is the
  truncation to an integer of the number of the four fields that are not empty after
  trimming, divided by 4, times 100, that is 25 times the number; a row with only the
  email filled in, every other field \<open>NULL\<close> or whitespace, has 25.
\<close>

theorem completeness_shown:
  assumes "session st = Some uname" and "uname \<noteq> []"
    and "find (\<lambda>r. username r = uname) (rows (db st)) = Some user"
    and "req_method req = GET"
  shows "(\<exists>word_count st'.
            profile secure_filename decode st req uname =
              (Render (Profile_html user word_count (truthy (limerick_filename user))
                         (completeness user)), st'))
       \<and> completeness user = py_int ((real (spec_filled user) / 4) * 100)
       \<and> completeness user = 25 * int (spec_filled user)
       \<and> (blank (firstname user) \<and> blank (lastname user) \<and> \<not> blank (email user)
            \<and> blank (address user) \<longrightarrow> completeness user = 25)"
proof -
  have own: "require_login st = (Some uname, st)"
    using assms(1,2) by (simp add: require_login_def truthy_def or_empty_def)
  have 1: "\<exists>word_count st'.
            profile secure_filename decode st req uname =
              (Render (Profile_html user word_count (truthy (limerick_filename user))
                         (completeness user)), st')"
    using assms(3,4) by (simp add: profile_def own get_user_def split: prod.splits)
  have 2: "completeness user = py_int ((real (spec_filled user) / 4) * 100)"
    by (simp add: completeness_def filled_fields_spec)
  have 3: "blank (firstname user) \<and> blank (lastname user) \<and> \<not> blank (email user)
            \<and> blank (address user) \<longrightarrow> completeness user = 25"
    by (simp add: completeness_25 spec_filled_def)
  show ?thesis using 1 2 3 completeness_25 by blast
qed

theorem completeness_shown_witness:
  "profile demo_secure read_text (demo_state (Some ''alice'')) get_request ''alice'' =
     (Render (Profile_html alice None False 25),
      (demo_state (Some ''alice''))\<lparr>reads := [RowRead ''alice'']\<rparr>)
   \<and> completeness alice = 25 \<and> completeness bob = 0"
proof -
  have a: "spec_filled alice = 1"
    by (simp add: spec_filled_def blank_def alice_def isspace_def)
  have b: "spec_filled bob = 0"
    by (simp add: spec_filled_def blank_def bob_def isspace_def)
  have ca: "completeness alice = 25"
    using completeness_shown[of "demo_state (Some ''alice'')" "''alice''" alice get_request
        demo_secure read_text] a
    by (simp add: demo_state_def get_request_def alice_def bob_def)
  have cb: "completeness bob = 0"
    using completeness_shown[of "demo_state (Some ''bob'')" "''bob''" bob get_request
        demo_secure read_text] b
    by (simp add: demo_state_def get_request_def alice_def bob_def)
  have p: "profile demo_secure read_text (demo_state (Some ''alice'')) get_request ''alice'' =
     (Render (Profile_html alice None False (completeness alice)),
      (demo_state (Some ''alice''))\<lparr>reads := [RowRead ''alice'']\<rparr>)"
    by (simp add: profile_def require_login_def truthy_def or_empty_def get_user_def
          demo_state_def get_request_def alice_def bob_def)
  show ?thesis using p ca cb by simp
qed

section \<open>The decoder and the word counter on the text of a file\<close>

declare split_cp.simps [simp del]

lemma split_cp_Nil: "split_cp [] = []"
  by (subst split_cp.simps) simp

lemma split_cp_word:
  "\<not> isspace_cp c \<Longrightarrow>
   split_cp (c # cs) = (c # takeWhile (\<lambda>x. \<not> isspace_cp x) cs)
                       # split_cp (dropWhile (\<lambda>x. \<not> isspace_cp x) cs)"
  by (subst split_cp.simps) simp

lemma split_cp_space: "isspace_cp c \<Longrightarrow> split_cp (c # cs) = split_cp cs"
  by (subst (1 2) split_cp.simps) simp

lemma of_char_below: "(of_char c :: nat) < 256"
proof -
  have "(of_char c :: nat) mod 256 < 256" by simp
  then show ?thesis by (simp only: of_char_mod_256)
qed

lemma isspace_cp_below:
  "n < 256 \<Longrightarrow>
   isspace_cp n = ((9 \<le> n \<and> n \<le> 13) \<or> (28 \<le> n \<and> n \<le> 32) \<or> n = 133 \<or> n = 160)"
  by (auto simp: isspace_cp_def)

lemma isspace_cp_of_char: "isspace_cp (of_char c) = isspace c"
  by (simp add: isspace_cp_below[OF of_char_below] isspace_def Let_def)

lemma split_cp_of_char: "split_cp (map of_char s) = map (map of_char) (split_ws s)"
proof (induction s rule: split_ws.induct)
  case (1 s)
  have d: "dropWhile isspace_cp (map of_char s) = map of_char (dropWhile isspace s)"
    by (simp add: dropWhile_map comp_def isspace_cp_of_char)
  show ?case
  proof (cases "dropWhile isspace s")
    case Nil
    then show ?thesis
      by (subst split_cp.simps, subst split_ws.simps) (simp only: d list.map list.case)
  next
    case (Cons c cs)
    have t: "takeWhile (\<lambda>x. \<not> isspace_cp x) (map of_char cs)
             = map of_char (takeWhile (\<lambda>x. \<not> isspace x) cs)"
      by (simp add: takeWhile_map comp_def isspace_cp_of_char)
    have r: "dropWhile (\<lambda>x. \<not> isspace_cp x) (map of_char cs)
             = map of_char (dropWhile (\<lambda>x. \<not> isspace x) cs)"
      by (simp add: dropWhile_map comp_def isspace_cp_of_char)
    show ?thesis
      using 1[OF Cons]
      by (subst split_cp.simps, subst split_ws.simps) (simp add: d Cons t r)
  qed
qed

lemma strip_cp_of_char: "strip_cp (map of_char w) = map of_char (strip w)"
  by (simp add: strip_cp_def strip_def dropWhile_map comp_def isspace_cp_of_char rev_map)

lemma count_words_cp_of_char: "count_words_cp (map of_char s) = count_words s"
  by (simp add: count_words_cp_def count_words_def split_cp_of_char strip_cp_of_char
        filter_map comp_def)

lemma utf8_ignore_1: "b < 128 \<Longrightarrow> utf8_ignore (b # bs) = b # utf8_ignore bs"
  by simp

lemma utf8_ignore_2:
  "194 \<le> b \<Longrightarrow> b < 224 \<Longrightarrow> continuation b2 \<Longrightarrow>
   utf8_ignore (b # b2 # r) = ((b - 192) * 64 + (b2 - 128)) # utf8_ignore r"
  by simp

lemma utf8_ignore_3:
  "224 \<le> b \<Longrightarrow> b < 240 \<Longrightarrow> continuation b2 \<Longrightarrow> b = 224 \<longrightarrow> 160 \<le> b2 \<Longrightarrow>
   b = 237 \<longrightarrow> b2 < 160 \<Longrightarrow> continuation b3 \<Longrightarrow>
   utf8_ignore (b # b2 # b3 # r) =
     ((b - 224) * 4096 + (b2 - 128) * 64 + (b3 - 128)) # utf8_ignore r"
  by (simp del: utf8_ignore.simps add: utf8_ignore.simps(2)[of b] not_less)
     (auto simp del: utf8_ignore.simps)

lemma utf8_ignore_4:
  "240 \<le> b \<Longrightarrow> b < 245 \<Longrightarrow> continuation b2 \<Longrightarrow> b = 240 \<longrightarrow> 144 \<le> b2 \<Longrightarrow>
   b = 244 \<longrightarrow> b2 < 144 \<Longrightarrow> continuation b3 \<Longrightarrow> continuation b4 \<Longrightarrow>
   utf8_ignore (b # b2 # b3 # b4 # r) =
     ((b - 240) * 262144 + (b2 - 128) * 4096 + (b3 - 128) * 64 + (b4 - 128)) # utf8_ignore r"
  by (simp del: utf8_ignore.simps add: utf8_ignore.simps(2)[of b] not_less)
     (auto simp del: utf8_ignore.simps)


lemma utf8_ignore_utf8:
  assumes "scalar c"
  shows "utf8_ignore (utf8 c @ bs) = c # utf8_ignore bs"
proof -
  have "c < 1114112" using assms by (auto simp: scalar_def)
  then consider "c < 128" | "128 \<le> c" "c < 2048" | "2048 \<le> c" "c < 65536"
    | "65536 \<le> c" "c < 1114112"
    by linarith
  then show ?thesis
  proof cases
    case 1
    then show ?thesis by (simp add: utf8_def)
  next
    case 2
    define h where "h = c div 64"
    define l where "l = c mod 64"
    have c: "c = h * 64 + l" by (simp add: h_def l_def)
    have b: "l < 64" by (simp add: l_def)
    have h: "2 \<le> h" "h < 32" using 2 b unfolding c by linarith+
    have u: "utf8 c = [192 + h, 128 + l]"
      using 2 by (simp add: utf8_def h_def l_def)
    have "utf8_ignore ((192 + h) # (128 + l) # bs)
          = ((192 + h - 192) * 64 + (128 + l - 128)) # utf8_ignore bs"
      using h b by (intro utf8_ignore_2) (simp_all add: continuation_def)
    moreover have "(192 + h - 192) * 64 + (128 + l - 128) = c" using c by simp
    ultimately show ?thesis unfolding u by (simp del: utf8_ignore.simps)
  next
    case 3
    define h where "h = c div 64 div 64"
    define m where "m = c div 64 mod 64"
    define l where "l = c mod 64"
    have c: "c = h * 4096 + m * 64 + l"
    proof -
      have "c = (c div 64) * 64 + l" by (simp add: l_def)
      moreover have "c div 64 = h * 64 + m" by (simp add: h_def m_def)
      ultimately show ?thesis by simp
    qed
    have b: "m < 64" "l < 64" by (simp_all add: m_def l_def)
    have h: "h < 16" using 3 b unfolding c by linarith
    have o: "h = 0 \<longrightarrow> 32 \<le> m" using 3 b unfolding c by auto
    have s: "h = 13 \<longrightarrow> m < 32"
      using assms b unfolding c scalar_def by auto
    have u: "utf8 c = [224 + h, 128 + m, 128 + l]"
      using 3 by (simp add: utf8_def h_def m_def l_def div_mult2_eq)
    have "utf8_ignore ((224 + h) # (128 + m) # (128 + l) # bs)
          = ((224 + h - 224) * 4096 + (128 + m - 128) * 64 + (128 + l - 128)) # utf8_ignore bs"
      using h b o s by (intro utf8_ignore_3) (simp_all add: continuation_def)
    moreover have "(224 + h - 224) * 4096 + (128 + m - 128) * 64 + (128 + l - 128) = c"
      using c by simp
    ultimately show ?thesis unfolding u by (simp del: utf8_ignore.simps)
  next
    case 4
    define h where "h = c div 64 div 64 div 64"
    define k where "k = c div 64 div 64 mod 64"
    define m where "m = c div 64 mod 64"
    define l where "l = c mod 64"
    have c: "c = h * 262144 + k * 4096 + m * 64 + l"
    proof -
      have "c = (c div 64) * 64 + l" by (simp add: l_def)
      moreover have "c div 64 = (c div 64 div 64) * 64 + m" by (simp add: m_def)
      moreover have "c div 64 div 64 = h * 64 + k" by (simp add: h_def k_def)
      ultimately show ?thesis by simp
    qed
    have b: "k < 64" "m < 64" "l < 64" by (simp_all add: k_def m_def l_def)
    have h: "h < 5" using 4 b unfolding c by linarith
    have o: "h = 0 \<longrightarrow> 16 \<le> k" using 4 b unfolding c by auto
    have s: "h = 4 \<longrightarrow> k < 16" using 4 b unfolding c by auto
    have d1: "c div 4096 = c div 64 div 64"
    proof -
      have "c div 4096 = c div (64 * 64)" by simp
      then show ?thesis by (simp only: div_mult2_eq)
    qed
    have d2: "c div 262144 = c div 64 div 64 div 64"
    proof -
      have "c div 262144 = c div (64 * 64 * 64)" by simp
      then show ?thesis by (simp only: div_mult2_eq)
    qed
    have u: "utf8 c = [240 + h, 128 + k, 128 + m, 128 + l]"
      using 4 by (simp add: utf8_def h_def k_def m_def l_def d1 d2)
    have "utf8_ignore ((240 + h) # (128 + k) # (128 + m) # (128 + l) # bs)
          = ((240 + h - 240) * 262144 + (128 + k - 128) * 4096 + (128 + m - 128) * 64
             + (128 + l - 128)) # utf8_ignore bs"
      using h b o s by (intro utf8_ignore_4) (simp_all add: continuation_def)
    moreover have "(240 + h - 240) * 262144 + (128 + k - 128) * 4096 + (128 + m - 128) * 64
             + (128 + l - 128) = c"
      using c by simp
    ultimately show ?thesis unfolding u by (simp del: utf8_ignore.simps)
  qed
qed


lemma utf8_ignore_well_formed:
  "list_all scalar cs \<Longrightarrow> utf8_ignore (concat (map utf8 cs) @ bs) = cs @ utf8_ignore bs"
  by (induction cs) (simp_all add: utf8_ignore_utf8 del: utf8_ignore.simps)

lemma utf8_ignore_lead_alone:
  "194 \<le> b \<Longrightarrow> b < 245 \<Longrightarrow> \<not> continuation b2 \<Longrightarrow>
   utf8_ignore (b # b2 # bs) = utf8_ignore (b2 # bs)"
  by (simp del: utf8_ignore.simps add: utf8_ignore.simps(2)[of b] not_less)

section \<open>Storing an upload, and the word count of a stored file\<close>








text \<open>
  Claim C10. With the file read as UTF-8 text, errors ignored, \<open>get_word_count\<close> returns
  nothing exactly when the path is \<open>None\<close> or empty, when nothing is there, or when what is
  there cannot be opened for reading (a file without read permission, a directory); for
  a file that can be read it returns the count of the decoded text, whatever the bytes
  are. The decoder gives well-formed text back as it was encoded and drops what cannot be
  decoded: behind well-formed text, a byte that starts no sequence is dropped and the
  decoding goes on behind it, a lead byte before a byte that is no continuation byte is
  dropped and the decoding goes on at that byte, and a last byte that is not ASCII is
  dropped.
\<close>

theorem word_count_absent_only:
  "(fst (get_word_count read_text st file_path) = None) =
     (file_path = None \<or> file_path = Some [] \<or> fs st (or_empty file_path) = None
      \<or> (\<exists>bytes. fs st (or_empty file_path) = Some (Unreadable bytes))
      \<or> fs st (or_empty file_path) = Some Directory)
   \<and> (\<forall>p bytes. p \<noteq> [] \<and> fs st p = Some (Readable bytes) \<longrightarrow>
         fst (get_word_count read_text st (Some p)) = Some (count_words_cp (read_text bytes)))
   \<and> (\<forall>cs b bs. list_all scalar cs \<and> ((128 \<le> b \<and> b < 194) \<or> 245 \<le> b) \<longrightarrow>
         utf8_ignore (concat (map utf8 cs) @ b # bs) = cs @ utf8_ignore bs)
   \<and> (\<forall>cs b b2 bs. list_all scalar cs \<and> 194 \<le> b \<and> b < 245 \<and> \<not> continuation b2 \<longrightarrow>
         utf8_ignore (concat (map utf8 cs) @ b # b2 # bs) = cs @ utf8_ignore (b2 # bs))
   \<and> (\<forall>cs b. list_all scalar cs \<and> 128 \<le> b \<longrightarrow>
         utf8_ignore (concat (map utf8 cs) @ [b]) = cs)"
proof -
  have 1: "(fst (get_word_count read_text st file_path) = None) =
     (file_path = None \<or> file_path = Some [] \<or> fs st (or_empty file_path) = None
      \<or> (\<exists>bytes. fs st (or_empty file_path) = Some (Unreadable bytes))
      \<or> fs st (or_empty file_path) = Some Directory)"
    by (auto simp: get_word_count_def truthy_def or_empty_def Let_def
             split: option.splits fsentry.splits)
  have 2: "\<forall>p bytes. p \<noteq> [] \<and> fs st p = Some (Readable bytes) \<longrightarrow>
         fst (get_word_count read_text st (Some p)) = Some (count_words_cp (read_text bytes))"
    by (simp add: get_word_count_def truthy_def or_empty_def Let_def)
  have 3: "\<forall>cs b bs. list_all scalar cs \<and> ((128 \<le> b \<and> b < 194) \<or> 245 \<le> b) \<longrightarrow>
         utf8_ignore (concat (map utf8 cs) @ b # bs) = cs @ utf8_ignore bs"
    by (auto simp: utf8_ignore_well_formed)
  have 4: "\<forall>cs b b2 bs. list_all scalar cs \<and> 194 \<le> b \<and> b < 245 \<and> \<not> continuation b2 \<longrightarrow>
         utf8_ignore (concat (map utf8 cs) @ b # b2 # bs) = cs @ utf8_ignore (b2 # bs)"
    by (simp add: utf8_ignore_well_formed utf8_ignore_lead_alone del: utf8_ignore.simps)
  have 5: "\<forall>cs b. list_all scalar cs \<and> 128 \<le> b \<longrightarrow>
         utf8_ignore (concat (map utf8 cs) @ [b]) = cs"
    by (auto simp: utf8_ignore_well_formed)
  show ?thesis using 1 2 3 4 5 by blast
qed

theorem word_count_absent_only_witness:
  "read_text garbled = [97, 98, 32, 40, 99, 10, 8364]
   \<and> fst (get_word_count read_text
            ((demo_state None)\<lparr>fs := [''uploads/alice_Limerick.txt'' \<mapsto> Readable garbled]\<rparr>)
            (Some ''uploads/alice_Limerick.txt'')) = Some 3
   \<and> fst (get_word_count read_text (demo_state None) (Some ''uploads/alice_Limerick.txt'')) = None"
proof -
  have g: "read_text garbled = [97, 98, 32, 40, 99, 10, 8364]"
    by (simp add: read_text_def garbled_def continuation_def)
  have w: "count_words_cp [97, 98, 32, 40, 99, 10, 8364] = 3"
    by (simp add: count_words_cp_def split_cp_Nil split_cp_word split_cp_space isspace_cp_def
          strip_cp_def)
  show ?thesis
    using g w
      word_count_absent_only[of
        "(demo_state None)\<lparr>fs := [''uploads/alice_Limerick.txt'' \<mapsto> Readable garbled]\<rparr>"
        "Some ''uploads/alice_Limerick.txt''"]
      word_count_absent_only[of "demo_state None" "Some ''uploads/alice_Limerick.txt''"]
    by (simp add: demo_state_def or_empty_def del: utf8_ignore.simps)
qed

end
